theory Spec2Isabelle
  imports Complex_Main "HOL-Library.Word"
begin

section \<open>The values of type double\<close>

text \<open>
  ALLKNN.cpp computes with C++ \<^verbatim>\<open>double\<close> and uses
  \<^verbatim>\<open>std::numeric_limits<double>::infinity()\<close> as a value, so the model keeps the
  four classes of binary64 values apart: a finite value (carried as the real number it
  denotes), the two infinities and NaN. The two zeros are one value here: they compare
  equal, and the metric never returns a negative zero (its sum starts at +0 and adds
  squares).

  Every arithmetic result on finite operands is the exact real result rounded by
  \<open>round_double\<close>: to the nearest binary64 value, ties to the even significand, with 53
  significant bits, subnormals below \<open>2 powi (- 1022)\<close> and overflow to an infinity once
  the rounded magnitude reaches \<open>2 ^ 1024\<close>. Each operation is rounded on its own, as
  with SSE2 or AArch64 arithmetic. So the operations only ever produce
  representable values; the theorems below hold for every value of the datatype, the
  representable ones among them.
\<close>

datatype double = Finite real | PInf | NInf | NaN

definition round_ties_even :: "real \<Rightarrow> int" where
  "round_ties_even q =
     (let f = \<lfloor>q\<rfloor>; r = q - of_int f
      in if r < 1 / 2 then f
         else if 1 / 2 < r then f + 1
         else if even f then f else f + 1)"

definition binade :: "real \<Rightarrow> int" where
  "binade x = max \<lfloor>log 2 \<bar>x\<bar>\<rfloor> (- 1022)"

definition overflow_threshold :: real where
  "overflow_threshold = 2 ^ 1024"

definition round_double :: "real \<Rightarrow> double" where
  "round_double x =
     (if x = 0 then Finite 0
      else let ulp = 2 powi (binade x - 52);
               y = of_int (round_ties_even (x / ulp)) * ulp
           in if overflow_threshold \<le> y then PInf
              else if y \<le> - overflow_threshold then NInf
              else Finite y)"

fun is_finite :: "double \<Rightarrow> bool" where
  "is_finite (Finite x) = True"
| "is_finite PInf = False"
| "is_finite NInf = False"
| "is_finite NaN = False"

fun fneg :: "double \<Rightarrow> double" where
  "fneg (Finite x) = Finite (- x)"
| "fneg PInf = NInf"
| "fneg NInf = PInf"
| "fneg NaN = NaN"

fun fadd :: "double \<Rightarrow> double \<Rightarrow> double" where
  "fadd NaN y = NaN"
| "fadd x NaN = NaN"
| "fadd (Finite x) (Finite y) = round_double (x + y)"
| "fadd PInf NInf = NaN"
| "fadd NInf PInf = NaN"
| "fadd PInf y = PInf"
| "fadd x PInf = PInf"
| "fadd NInf y = NInf"
| "fadd x NInf = NInf"

text \<open>Subtraction is addition of the negated operand, as in IEEE 754.\<close>

definition fsub :: "double \<Rightarrow> double \<Rightarrow> double" where
  "fsub x y = fadd x (fneg y)"

fun fmul :: "double \<Rightarrow> double \<Rightarrow> double" where
  "fmul NaN y = NaN"
| "fmul x NaN = NaN"
| "fmul (Finite x) (Finite y) = round_double (x * y)"
| "fmul (Finite x) PInf = (if x = 0 then NaN else if 0 < x then PInf else NInf)"
| "fmul (Finite x) NInf = (if x = 0 then NaN else if 0 < x then NInf else PInf)"
| "fmul PInf (Finite y) = (if y = 0 then NaN else if 0 < y then PInf else NInf)"
| "fmul NInf (Finite y) = (if y = 0 then NaN else if 0 < y then NInf else PInf)"
| "fmul PInf PInf = PInf"
| "fmul NInf NInf = PInf"
| "fmul PInf NInf = NInf"
| "fmul NInf PInf = NInf"

fun fsqrt :: "double \<Rightarrow> double" where
  "fsqrt (Finite x) = (if x < 0 then NaN else round_double (sqrt x))"
| "fsqrt PInf = PInf"
| "fsqrt NInf = NaN"
| "fsqrt NaN = NaN"

text \<open>The comparison \<^verbatim>\<open><=\<close>: false as soon as one operand is NaN.\<close>

fun fle :: "double \<Rightarrow> double \<Rightarrow> bool" where
  "fle NaN y = False"
| "fle x NaN = False"
| "fle (Finite x) (Finite y) = (x \<le> y)"
| "fle NInf y = True"
| "fle x PInf = True"
| "fle PInf y = False"
| "fle x NInf = False"

section \<open>Failures\<close>

text \<open>
  Every way the program can stop early is a value: the loader's fatal failure
  (\<^verbatim>\<open>data::Load(..., true)\<close>), an index outside a matrix or vector, two vectors
  of different lengths handed to the metric, and a failure raised by the external
  search.
\<close>

datatype error = LoadFailure | IndexOutOfBounds | DimensionMismatch | SearchFailure

section \<open>The metric: struct euclidean\_distance\<close>

type_synonym sample_typ = "double list"

record euclidean_distance =
  lower :: double
  upper :: double

text \<open>The default constructor (lines 23-26) and the two-argument one (lines 28-31).\<close>

definition euclidean_distance_default :: euclidean_distance where
  "euclidean_distance_default = \<lparr>lower = Finite 0, upper = PInf\<rparr>"

definition euclidean_distance_bounds :: "double \<Rightarrow> double \<Rightarrow> euclidean_distance" where
  "euclidean_distance_bounds l u = \<lparr>lower = l, upper = u\<rparr>"

text \<open>
  Modelled from the spec: dlib's matrix subtraction \<^verbatim>\<open>a-b\<close> and
  \<^verbatim>\<open>length_squared\<close> are library code outside this repository. The spec gives
  the computation as \<open>sqrt(sum_j (a[j] - b[j])^2)\<close> and says that vectors of different
  lengths are a contract violation that fails. The difference is taken element by
  element, and the squares are summed from 0 in index order.
\<close>

definition mat_sub :: "sample_typ \<Rightarrow> sample_typ \<Rightarrow> error + sample_typ" where
  "mat_sub a b =
     (if length a = length b then Inr (map2 fsub a b) else Inl DimensionMismatch)"

definition length_squared :: "sample_typ \<Rightarrow> double" where
  "length_squared v = foldl fadd (Finite 0) (map (\<lambda>x. fmul x x) v)"

text \<open>\<^verbatim>\<open>euclidean_distance::operator()\<close> (lines 36-45).\<close>

definition euclidean_distance_call ::
  "euclidean_distance \<Rightarrow> sample_typ \<Rightarrow> sample_typ \<Rightarrow> error + double" where
  "euclidean_distance_call ed a b =
     (case mat_sub a b of
        Inl e \<Rightarrow> Inl e
      | Inr d \<Rightarrow>
          (let len = fsqrt (length_squared d)
           in if fle (lower ed) len \<and> fle len (upper ed) then Inr len else Inr PInf))"

section \<open>The distance over the reals\<close>

text \<open>
  The distance as the specification writes it, \<open>sqrt(sum_j (a[j] - b[j])^2)\<close>, over real
  vectors: the value the computed length is compared with. A real number is
  representable when rounding leaves it as it is, and an evaluation of the formula is
  exact when every difference, every square, every partial sum and the root are
  representable, that is when no operation rounds, overflows or underflows.
\<close>

definition true_distance :: "real list \<Rightarrow> real list \<Rightarrow> real" where
  "true_distance xs ys = sqrt (\<Sum>(x, y)\<leftarrow>zip xs ys. (x - y)\<^sup>2)"

definition representable :: "real \<Rightarrow> bool" where
  "representable x = (round_double x = Finite x)"

fun exact_sum :: "real \<Rightarrow> real list \<Rightarrow> bool" where
  "exact_sum acc [] = True"
| "exact_sum acc (q # qs) = (representable (acc + q) \<and> exact_sum (acc + q) qs)"

definition exact_evaluation :: "real list \<Rightarrow> real list \<Rightarrow> bool" where
  "exact_evaluation xs ys =
     (let ds = map2 (-) xs ys; qs = map (\<lambda>d. d * d) ds
      in list_all representable ds \<and> list_all representable qs \<and>
         exact_sum 0 qs \<and> representable (sqrt (sum_list qs)))"

section \<open>The staging loops of mlpackMain\<close>

text \<open>
  \<^verbatim>\<open>arma::mat\<close>: the dimensions and the elements in column-major order.
  \<^verbatim>\<open>referenceData(j, i)\<close> is the bounds-checked element access. Dimensions and
  loop counters are natural numbers: a counter of type \<^verbatim>\<open>size_t\<close> runs from 0 up
  to a dimension of the same width and no further, so it never wraps.
\<close>

record arma_mat =
  n_rows :: nat
  n_cols :: nat
  mem :: "double list"

definition wf_mat :: "arma_mat \<Rightarrow> bool" where
  "wf_mat A = (length (mem A) = n_rows A * n_cols A)"

definition mat_at :: "arma_mat \<Rightarrow> nat \<Rightarrow> nat \<Rightarrow> error + double" where
  "mat_at A j i =
     (if j < n_rows A \<and> i < n_cols A then Inr (mem A ! (j + i * n_rows A))
      else Inl IndexOutOfBounds)"

text \<open>
  The dlib column vector \<^verbatim>\<open>m\<close>: \<^verbatim>\<open>set_size\<close> allocates without
  initialising, so the fresh cells hold whatever \<open>uninit\<close> gives; \<^verbatim>\<open>m(j) = v\<close>
  writes one cell.
\<close>

definition set_size :: "(nat \<Rightarrow> double) \<Rightarrow> nat \<Rightarrow> sample_typ" where
  "set_size uninit n = map uninit [0..<n]"

definition vec_set :: "sample_typ \<Rightarrow> nat \<Rightarrow> double \<Rightarrow> error + sample_typ" where
  "vec_set v j x = (if j < length v then Inr (v[j := x]) else Inl IndexOutOfBounds)"

text \<open>The local variables of mlpackMain that the two loops read and write.\<close>

record main_state =
  referenceData :: arma_mat
  m :: sample_typ
  samples_train :: "sample_typ list"

text \<open>The inner loop (lines 69-70), entered with the counter \<open>j\<close>.\<close>

function fill_column :: "nat \<Rightarrow> nat \<Rightarrow> main_state \<Rightarrow> error + main_state" where
  "fill_column i j s =
     (if j < n_rows (referenceData s) then
        (case mat_at (referenceData s) j i of
           Inl e \<Rightarrow> Inl e
         | Inr v \<Rightarrow>
             (case vec_set (m s) j v of
                Inl e \<Rightarrow> Inl e
              | Inr m' \<Rightarrow> fill_column i (Suc j) (s\<lparr>m := m'\<rparr>)))
      else Inr s)"
  by pat_completeness auto
termination
  by (relation "measure (\<lambda>(i, j, s). n_rows (referenceData s) - j)") auto

declare fill_column.simps [simp del]

text \<open>The outer loop (lines 67-73), entered with the counter \<open>i\<close>.\<close>

function stage_columns :: "nat \<Rightarrow> main_state \<Rightarrow> error + main_state" where
  "stage_columns i s =
     (if i < n_cols (referenceData s) then
        (case fill_column i 0 s of
           Inl e \<Rightarrow> Inl e
         | Inr s' \<Rightarrow>
             stage_columns (Suc i) (s'\<lparr>samples_train := samples_train s' @ [m s']\<rparr>))
      else Inr s)"
  by pat_completeness auto
termination
proof (relation "measure (\<lambda>(i, s). n_cols (referenceData s) - i)")
  show "wf (measure (\<lambda>(i, s). n_cols (referenceData s) - i))"
    by simp
next
  fix i :: nat and s s' :: main_state
  assume lt: "i < n_cols (referenceData s)" and run: "fill_column i 0 s = Inr s'"
  have frame: "fill_column c j t = Inr t' \<Longrightarrow> referenceData t' = referenceData t"
    for c j t t'
  proof (induction c j t rule: fill_column.induct)
    case (1 c j t)
    show ?case
    proof (cases "j < n_rows (referenceData t)")
      case False
      with "1.prems" show ?thesis by (simp add: fill_column.simps [of c j t])
    next
      case True
      from "1.prems" True obtain v m' where
        at: "mat_at (referenceData t) j c = Inr v" and
        st: "vec_set (m t) j v = Inr m'" and
        rec: "fill_column c (Suc j) (t\<lparr>m := m'\<rparr>) = Inr t'"
        by (auto simp add: fill_column.simps [of c j t] split: sum.splits)
      from "1.IH" [OF True at st rec] show ?thesis by simp
    qed
  qed
  from frame [OF run] lt
  show "((Suc i, s'\<lparr>samples_train := samples_train s' @ [m s']\<rparr>), (i, s))
          \<in> measure (\<lambda>(i, s). n_cols (referenceData s) - i)"
    by simp
qed

declare stage_columns.simps [simp del]

text \<open>Lines 61-73: the declarations, \<^verbatim>\<open>m.set_size\<close> and the loops.\<close>

definition stage :: "(nat \<Rightarrow> double) \<Rightarrow> arma_mat \<Rightarrow> error + main_state" where
  "stage uninit A =
     stage_columns 0
       \<lparr>referenceData = A, m = set_size uninit (n_rows A), samples_train = []\<rparr>"

section \<open>mlpackMain\<close>

text \<open>
  The two command-line parameters (lines 17-19). \<^verbatim>\<open>int\<close> has 32 bits and
  \<^verbatim>\<open>size_t\<close> 64 (the LP64 data model).
\<close>

record cli_params =
  reference_file :: string
  k_param :: "32 word"

record sample_pair =
  index1 :: nat
  index2 :: nat
  distance :: double

text \<open>What the run does that is visible outside, in order.\<close>

datatype event =
    LogInfo string nat nat
  | TimerStart string
  | SearchCall "sample_typ list" euclidean_distance "64 word"
  | TimerStop string

text \<open>
  The loader \<open>Load\<close> and the search \<open>find_k_nearest_neighbors\<close> are external: they are
  parameters, and either may fail. A C++ exception leaves mlpackMain at the call that
  raised it: the function has no handler, and no local object whose destructor would
  stop the timer, so no statement after that call is executed. The result is the final
  \<^verbatim>\<open>out\<close> or the failure, with the trace of events up to there.
\<close>

definition mlpackMain ::
  "(string \<Rightarrow> error + arma_mat) \<Rightarrow>
   (sample_typ list \<Rightarrow> euclidean_distance \<Rightarrow> 64 word \<Rightarrow> error + sample_pair list) \<Rightarrow>
   (nat \<Rightarrow> double) \<Rightarrow> cli_params \<Rightarrow> (error + sample_pair list) \<times> event list" where
  "mlpackMain Load find_k_nearest_neighbors uninit cli =
     (let referenceFile = reference_file cli;
          k = (scast (k_param cli) :: 64 word)
      in case Load referenceFile of
           Inl e \<Rightarrow> (Inl e, [])
         | Inr A \<Rightarrow>
             (let tr = [LogInfo referenceFile (n_rows A) (n_cols A)]
              in case stage uninit A of
                   Inl e \<Rightarrow> (Inl e, tr)
                 | Inr s \<Rightarrow>
                     (let tr' = tr @ [TimerStart ''Nearest_Neighbors'',
                                      SearchCall (samples_train s) euclidean_distance_default k]
                      in case find_k_nearest_neighbors (samples_train s)
                                euclidean_distance_default k of
                           Inl e \<Rightarrow> (Inl e, tr')
                         | Inr out \<Rightarrow> (Inr out, tr' @ [TimerStop ''Nearest_Neighbors'']))))"

section \<open>Auxiliary notions and example inputs\<close>

text \<open>Column \<open>i\<close> of a matrix as a list, to say what the loops have built.\<close>

definition mat_col :: "arma_mat \<Rightarrow> nat \<Rightarrow> sample_typ" where
  "mat_col A i = map (\<lambda>j. mem A ! (j + i * n_rows A)) [0..<n_rows A]"

text \<open>
  Concrete inputs: the 2 x 3 matrix with rows \<open>(0, 1, 2)\<close> and \<open>(0, 1, 2)\<close>, a 1 x 1
  matrix, a loader that knows one file, and command lines with \<open>k = 1\<close> and \<open>k = -1\<close>.
\<close>

definition scenario_mat :: arma_mat where
  "scenario_mat =
     \<lparr>n_rows = 2, n_cols = 3,
      mem = [Finite 0, Finite 0, Finite 1, Finite 1, Finite 2, Finite 2]\<rparr>"

definition unit_mat :: arma_mat where
  "unit_mat = \<lparr>n_rows = 1, n_cols = 1, mem = [Finite 0]\<rparr>"

definition demo_load :: "string \<Rightarrow> error + arma_mat" where
  "demo_load f = (if f = ''data.csv'' then Inr unit_mat else Inl LoadFailure)"

definition demo_cli :: cli_params where
  "demo_cli = \<lparr>reference_file = ''data.csv'', k_param = 1\<rparr>"

definition negative_cli :: cli_params where
  "negative_cli = \<lparr>reference_file = ''data.csv'', k_param = - 1\<rparr>"

text \<open>
  More concrete inputs: a 1 x 2 matrix whose two entries are positive infinity with its
  loader, a command line that names a file the loaders do not know, and a search that
  applies the metric it is given to the first two samples and reports the pair with
  that distance.
\<close>

definition inf_mat :: arma_mat where
  "inf_mat = \<lparr>n_rows = 1, n_cols = 2, mem = [PInf, PInf]\<rparr>"

definition inf_load :: "string \<Rightarrow> error + arma_mat" where
  "inf_load f = (if f = ''data.csv'' then Inr inf_mat else Inl LoadFailure)"

definition missing_cli :: cli_params where
  "missing_cli = \<lparr>reference_file = ''missing.csv'', k_param = 1\<rparr>"

fun probe_search ::
  "sample_typ list \<Rightarrow> euclidean_distance \<Rightarrow> 64 word \<Rightarrow> error + sample_pair list" where
  "probe_search (a # b # rest) ed kk =
     (case euclidean_distance_call ed a b of
        Inl e \<Rightarrow> Inl e
      | Inr d \<Rightarrow> Inr [\<lparr>index1 = 0, index2 = 1, distance = d\<rparr>])"
| "probe_search S ed kk = Inr []"

section \<open>Facts about rounding and the arithmetic\<close>

lemma rte_int: "round_ties_even (of_int n) = n"
  by (simp add: round_ties_even_def)

lemma rte_neg: "round_ties_even (- q) = - round_ties_even q"
proof (cases "q = of_int \<lfloor>q\<rfloor>")
  case True
  then obtain n :: int where "q = of_int n" ..
  then have "- q = of_int (- n)" by simp
  then show ?thesis unfolding \<open>q = of_int n\<close> by (simp only: rte_int)
next
  case False
  then have fl: "\<lfloor>- q\<rfloor> = - \<lfloor>q\<rfloor> - 1"
    by (simp add: floor_minus ceiling_altdef)
  have "even (- \<lfloor>q\<rfloor> - 1) \<longleftrightarrow> odd \<lfloor>q\<rfloor>" by simp
  with fl show ?thesis
    by (auto simp add: round_ties_even_def Let_def)
qed

lemma rte_nonneg: "0 \<le> q \<Longrightarrow> 0 \<le> round_ties_even q"
  by (auto simp add: round_ties_even_def Let_def)

lemma binade_neg: "binade (- x) = binade x"
  by (simp add: binade_def)

lemma overflow_threshold_pos: "0 < overflow_threshold"
  by (simp add: overflow_threshold_def)

lemma round_double_neg: "round_double (- x) = fneg (round_double x)"
  using overflow_threshold_pos
  by (auto simp add: round_double_def Let_def binade_neg rte_neg)

lemma round_double_not_NaN: "round_double x \<noteq> NaN"
  by (simp add: round_double_def Let_def)

lemma round_double_nonneg:
  assumes "0 \<le> x"
  shows "fle (Finite 0) (round_double x)"
proof -
  let ?ulp = "2 powi (binade x - 52) :: real"
  have "0 \<le> x / ?ulp" using assms by simp
  then have "0 \<le> round_ties_even (x / ?ulp)" by (rule rte_nonneg)
  then have "0 \<le> of_int (round_ties_even (x / ?ulp)) * ?ulp" by simp
  then show ?thesis
    using overflow_threshold_pos by (auto simp add: round_double_def Let_def)
qed

lemma binade_pow2: "binade (2 powi e) = max e (- 1022)"
proof -
  have "log 2 \<bar>2 powi e\<bar> = of_int e"
    by (simp add: powr_real_of_int' [symmetric])
  then show ?thesis by (simp add: binade_def)
qed

text \<open>A power of two in the normal range is representable; from \<open>2 ^ 1024\<close> on it overflows.\<close>

lemma round_double_pow2:
  assumes "- 1022 \<le> e"
  shows "round_double (2 powi e) = (if e < 1024 then Finite (2 powi e) else PInf)"
proof -
  have b: "binade (2 powi e) = e" using assms by (simp add: binade_pow2)
  have q: "2 powi e / 2 powi (e - 52) = (of_int (2 ^ 52) :: real)"
    by (simp add: power_int_diff)
  have y: "of_int (round_ties_even (2 powi e / 2 powi (e - 52))) * 2 powi (e - 52)
             = (2 powi e :: real)"
    unfolding q rte_int by (simp add: power_int_diff)
  have "overflow_threshold = 2 powi 1024" by (simp add: overflow_threshold_def)
  moreover have "(2 powi 1024 :: real) \<le> 2 powi e" if "1024 \<le> e"
    using that by (intro power_int_increasing) auto
  moreover have "(2 powi e :: real) < 2 powi 1024" if "e < 1024"
    using that by (intro power_int_strict_increasing) auto
  ultimately have cmp: "overflow_threshold \<le> (2 powi e :: real) \<longleftrightarrow> 1024 \<le> e"
    by (metis not_le)
  have nz: "(2 powi e :: real) \<noteq> 0" by simp
  have pos: "\<not> (2 powi e :: real) \<le> - overflow_threshold"
    using overflow_threshold_pos zero_less_power_int [of "2::real" e] by linarith
  show ?thesis
    unfolding round_double_def Let_def b y using nz cmp pos by auto
qed

lemma round_double_zero: "round_double 0 = Finite 0"
  by (simp add: round_double_def)

lemma round_double_one: "round_double 1 = Finite 1"
  using round_double_pow2 [of 0] by simp

lemma fneg_fneg: "fneg (fneg x) = x"
  by (cases x) simp_all

lemma fadd_commute: "fadd x y = fadd y x"
  by (cases x; cases y) (simp_all add: add.commute)

lemma fneg_fadd: "fneg (fadd x y) = fadd (fneg x) (fneg y)"
proof (cases x; cases y)
  fix u v assume "x = Finite u" "y = Finite v"
  then show ?thesis using round_double_neg [of "u + v"] by simp
qed simp_all

lemma fsub_swap: "fsub y x = fneg (fsub x y)"
  by (simp add: fsub_def fneg_fadd fneg_fneg fadd_commute)

lemma fmul_fneg_fneg: "fmul (fneg x) (fneg x) = fmul x x"
  by (cases x) simp_all

lemma fle_trans: "fle x y \<Longrightarrow> fle y z \<Longrightarrow> fle x z"
  by (cases x; cases y; cases z) simp_all

lemma fle_NaN_right: "\<not> fle x NaN"
  by (cases x) simp_all

lemma fle_PInf: "x \<noteq> NaN \<Longrightarrow> fle x PInf"
  by (cases x) simp_all

lemma fsub_finite_not_NaN: "is_finite x \<Longrightarrow> is_finite y \<Longrightarrow> fsub x y \<noteq> NaN"
  by (cases x; cases y) (simp_all add: fsub_def round_double_not_NaN)

lemma fsub_self: "is_finite x \<Longrightarrow> fsub x x = Finite 0"
  by (cases x) (simp_all add: fsub_def round_double_zero)

lemma fsub_zero_right: "fsub (Finite x) (Finite 0) = round_double x"
  by (simp add: fsub_def)

lemma fmul_self_nonneg: "x \<noteq> NaN \<Longrightarrow> fle (Finite 0) (fmul x x)"
  by (cases x) (simp_all add: round_double_nonneg)

lemma fmul_pow2:
  "fmul (Finite (2 powi i)) (Finite (2 powi j)) = round_double (2 powi (i + j))"
proof -
  have "(2::real) powi (i + j) = 2 powi i * 2 powi j"
    by (rule power_int_add) simp
  then show ?thesis by (simp only: fmul.simps)
qed

lemma fadd_nonneg:
  "fle (Finite 0) x \<Longrightarrow> fle (Finite 0) y \<Longrightarrow> fle (Finite 0) (fadd x y)"
  by (cases x; cases y) (simp_all add: round_double_nonneg)

lemma fsqrt_nonneg: "fle (Finite 0) x \<Longrightarrow> fle (Finite 0) (fsqrt x)"
  by (cases x) (simp_all add: round_double_nonneg)

lemma fsqrt_NaN_or_nonneg: "fsqrt x = NaN \<or> fle (Finite 0) (fsqrt x)"
  by (cases x) (simp_all add: round_double_nonneg)

section \<open>Facts about the metric\<close>

lemma foldl_fadd_nonneg:
  "fle (Finite 0) acc \<Longrightarrow> list_all (fle (Finite 0)) xs \<Longrightarrow>
   fle (Finite 0) (foldl fadd acc xs)"
  by (induction xs arbitrary: acc) (simp_all add: fadd_nonneg)

lemma foldl_fadd_zeros:
  "list_all (\<lambda>x. x = Finite 0) xs \<Longrightarrow> foldl fadd (Finite 0) xs = Finite 0"
  by (induction xs) (simp_all add: round_double_zero)

lemma length_squared_nonneg:
  "list_all (\<lambda>x. x \<noteq> NaN) v \<Longrightarrow> fle (Finite 0) (length_squared v)"
  unfolding length_squared_def
  by (rule foldl_fadd_nonneg) (simp_all add: list_all_iff fmul_self_nonneg)

lemma length_squared_single: "length_squared [x] = fadd (Finite 0) (fmul x x)"
  by (simp add: length_squared_def)

lemma map2_fsub_not_NaN:
  "length a = length b \<Longrightarrow> list_all is_finite a \<Longrightarrow> list_all is_finite b \<Longrightarrow>
   list_all (\<lambda>x. x \<noteq> NaN) (map2 fsub a b)"
  by (induction a b rule: list_induct2) (simp_all add: fsub_finite_not_NaN)

lemma sq_fsub_swap: "fmul (fsub y x) (fsub y x) = fmul (fsub x y) (fsub x y)"
proof -
  have "fsub y x = fneg (fsub x y)" by (rule fsub_swap)
  then show ?thesis by (simp only: fmul_fneg_fneg)
qed

lemma squares_swap:
  "map (\<lambda>x. fmul x x) (map2 fsub b a) = map (\<lambda>x. fmul x x) (map2 fsub a b)"
proof (induction a arbitrary: b)
  case Nil
  show ?case by simp
next
  case (Cons x xs)
  show ?case
  proof (cases b)
    case Nil
    then show ?thesis by simp
  next
    case (Cons y ys)
    have "fmul (fsub y x) (fsub y x) = fmul (fsub x y) (fsub x y)"
      by (rule sq_fsub_swap)
    with Cons Cons.IH [of ys] show ?thesis by simp
  qed
qed

lemma length_squared_swap:
  "length_squared (map2 fsub b a) = length_squared (map2 fsub a b)"
  unfolding length_squared_def by (simp only: squares_swap)

lemma call_equal_length:
  "length a = length b \<Longrightarrow>
   euclidean_distance_call ed a b =
     (let len = fsqrt (length_squared (map2 fsub a b))
      in if fle (lower ed) len \<and> fle len (upper ed) then Inr len else Inr PInf)"
  by (simp add: euclidean_distance_call_def mat_sub_def)

lemma len_finite_inputs:
  assumes "length a = length b" "list_all is_finite a" "list_all is_finite b"
  shows "fle (Finite 0) (fsqrt (length_squared (map2 fsub a b)))"
  by (intro fsqrt_nonneg length_squared_nonneg map2_fsub_not_NaN assms)

lemma default_call_finite:
  assumes "length a = length b" and "list_all is_finite a" and "list_all is_finite b"
  shows "euclidean_distance_call euclidean_distance_default a b =
           Inr (fsqrt (length_squared (map2 fsub a b)))"
proof -
  let ?len = "fsqrt (length_squared (map2 fsub a b))"
  have nn: "fle (Finite 0) ?len" using assms by (rule len_finite_inputs)
  then have "?len \<noteq> NaN" using fle_NaN_right by metis
  then have "fle ?len PInf" by (rule fle_PInf)
  with nn assms(1) show ?thesis
    by (simp add: call_equal_length euclidean_distance_default_def Let_def)
qed

lemma default_call_any:
  assumes "length a = length b"
  shows "euclidean_distance_call euclidean_distance_default a b =
           Inr (if fsqrt (length_squared (map2 fsub a b)) = NaN then PInf
                else fsqrt (length_squared (map2 fsub a b)))"
proof (cases "fsqrt (length_squared (map2 fsub a b)) = NaN")
  case True
  with assms show ?thesis
    by (simp add: call_equal_length euclidean_distance_default_def)
next
  case False
  with fsqrt_NaN_or_nonneg [of "length_squared (map2 fsub a b)"]
  have "fle (Finite 0) (fsqrt (length_squared (map2 fsub a b)))" by simp
  moreover from False have "fle (fsqrt (length_squared (map2 fsub a b))) PInf"
    by (rule fle_PInf)
  ultimately show ?thesis
    using assms False by (simp add: call_equal_length euclidean_distance_default_def)
qed

lemma len_empty: "fsqrt (length_squared []) = Finite 0"
  by (simp add: length_squared_def round_double_zero)

lemma len_self:
  assumes "list_all is_finite a"
  shows "fsqrt (length_squared (map2 fsub a a)) = Finite 0"
proof -
  have "list_all (\<lambda>x. x = Finite 0) (map (\<lambda>x. fmul x x) (map2 fsub a a))"
    using assms by (induction a) (simp_all add: fsub_self round_double_zero)
  then have "length_squared (map2 fsub a a) = Finite 0"
    unfolding length_squared_def by (rule foldl_fadd_zeros)
  then show ?thesis by (simp add: round_double_zero)
qed

lemma len_inf_inf: "fsqrt (length_squared (map2 fsub [PInf] [PInf])) = NaN"
  by (simp add: length_squared_def fsub_def)

lemma len_unit: "fsqrt (length_squared [fsub (Finite 1) (Finite 0)]) = Finite 1"
  by (simp add: length_squared_def fsub_def round_double_one)

lemma len_unit_swapped: "fsqrt (length_squared [fsub (Finite 0) (Finite 1)]) = Finite 1"
  using round_double_neg [of 1]
  by (simp add: length_squared_def fsub_def round_double_one)

text \<open>
  Two computations that overflow: the square of \<open>2 powi 600\<close>, and the difference of
  \<open>2 powi 1023\<close> and its negation.
\<close>

lemma len_square_overflows:
  "fsqrt (length_squared (map2 fsub [Finite (2 powi 600)] [Finite 0])) = PInf"
proof -
  have d: "fsub (Finite (2 powi 600)) (Finite 0) = Finite (2 powi 600)"
    using round_double_pow2 [of 600] by (simp only: fsub_zero_right) simp
  have "fmul (Finite (2 powi 600)) (Finite (2 powi 600)) = round_double (2 powi (600 + 600))"
    by (rule fmul_pow2)
  also have "\<dots> = PInf"
    using round_double_pow2 [of "600 + 600"] by simp
  finally have sq: "fmul (Finite (2 powi 600)) (Finite (2 powi 600)) = PInf" .
  have "map2 fsub [Finite (2 powi 600)] [Finite 0] = [fsub (Finite (2 powi 600)) (Finite 0)]"
    by (simp only: zip_Cons_Cons zip_Nil list.map prod.case)
  then show ?thesis
    by (simp only: d length_squared_single sq fadd.simps fsqrt.simps)
qed

lemma difference_overflows:
  "fsub (Finite (2 powi 1023)) (Finite (- (2 powi 1023))) = PInf"
proof -
  have "(2::real) powi (1 + 1023) = 2 powi 1 * 2 powi 1023"
    by (rule power_int_add) simp
  then have "(2::real) powi 1023 + 2 powi 1023 = 2 powi (1 + 1023)"
    by (simp only: power_int_1_right)
  then have "fsub (Finite (2 powi 1023)) (Finite (- (2 powi 1023)))
               = round_double (2 powi (1 + 1023))"
    by (simp only: fsub_def fneg.simps fadd.simps minus_minus)
  also have "\<dots> = PInf" using round_double_pow2 [of "1 + 1023"] by simp
  finally show ?thesis .
qed

lemma len_difference_overflows:
  "fsqrt (length_squared (map2 fsub [Finite (2 powi 1023)] [Finite (- (2 powi 1023))])) = PInf"
proof -
  have "map2 fsub [Finite (2 powi 1023)] [Finite (- (2 powi 1023))] = [PInf]"
    by (simp only: zip_Cons_Cons zip_Nil list.map prod.case difference_overflows)
  then show ?thesis
    by (simp only: length_squared_single fmul.simps fadd.simps fsqrt.simps)
qed

text \<open>When nothing rounds, the computed length is the true distance.\<close>

lemma exact_differences:
  "list_all representable (map2 (-) xs ys) \<Longrightarrow>
   map2 fsub (map Finite xs) (map Finite ys) = map Finite (map2 (-) xs ys)"
proof (induction xs arbitrary: ys)
  case Nil
  show ?case by simp
next
  case (Cons x xs)
  show ?case
  proof (cases ys)
    case Nil
    then show ?thesis by simp
  next
    case (Cons y ys')
    with Cons.prems Cons.IH [of ys'] show ?thesis
      by (simp add: fsub_def representable_def)
  qed
qed

lemma exact_squares:
  "list_all representable (map (\<lambda>d. d * d) ds) \<Longrightarrow>
   map (\<lambda>v. fmul v v) (map Finite ds) = map Finite (map (\<lambda>d. d * d) ds)"
  by (induction ds) (simp_all add: representable_def)

lemma exact_foldl:
  "exact_sum acc qs \<Longrightarrow> foldl fadd (Finite acc) (map Finite qs) = Finite (acc + sum_list qs)"
  by (induction qs arbitrary: acc) (simp_all add: representable_def add.assoc)

lemma sum_list_squares_nonneg: "0 \<le> sum_list (map (\<lambda>d. d * d) (ds :: real list))"
  by (induction ds) simp_all

lemma true_distance_squares:
  "true_distance xs ys = sqrt (sum_list (map (\<lambda>d. d * d) (map2 (-) xs ys)))"
proof -
  have "(\<Sum>(x, y)\<leftarrow>zip xs ys. (x - y)\<^sup>2) = sum_list (map (\<lambda>d. d * d) (map2 (-) xs ys))"
    by (induction xs arbitrary: ys) (auto simp add: power2_eq_square split: list.splits prod.splits
        simp: zip_Cons1)
  then show ?thesis by (simp add: true_distance_def)
qed

lemma true_distance_single: "true_distance [x] [y] = \<bar>x - y\<bar>"
  by (simp add: true_distance_def)

lemma len_exact:
  assumes "exact_evaluation xs ys"
  shows "fsqrt (length_squared (map2 fsub (map Finite xs) (map Finite ys)))
           = Finite (true_distance xs ys)"
proof -
  let ?ds = "map2 (-) xs ys"
  let ?qs = "map (\<lambda>d. d * d) ?ds"
  from assms have d: "list_all representable ?ds" and q: "list_all representable ?qs"
    and s: "exact_sum 0 ?qs" and r: "representable (sqrt (sum_list ?qs))"
    by (simp_all add: exact_evaluation_def Let_def)
  have "length_squared (map2 fsub (map Finite xs) (map Finite ys))
          = foldl fadd (Finite 0) (map Finite ?qs)"
    unfolding length_squared_def exact_differences [OF d] exact_squares [OF q] ..
  also have "\<dots> = Finite (sum_list ?qs)"
    using exact_foldl [OF s] by simp
  finally have "length_squared (map2 fsub (map Finite xs) (map Finite ys)) = Finite (sum_list ?qs)" .
  moreover have "\<not> sum_list ?qs < 0"
    using sum_list_squares_nonneg [of ?ds] by simp
  ultimately show ?thesis
    using r by (simp add: representable_def true_distance_squares)
qed

lemma floor_log2_int:
  assumes "1 \<le> \<bar>n\<bar>" and "\<bar>n\<bar> < 2 ^ 53"
  shows "0 \<le> \<lfloor>log 2 \<bar>of_int n :: real\<bar>\<rfloor>" and "\<lfloor>log 2 \<bar>of_int n :: real\<bar>\<rfloor> \<le> 52"
proof -
  have a: "(1::real) \<le> \<bar>of_int n\<bar>" using assms(1) by (metis of_int_1_le_iff of_int_abs)
  have b: "\<bar>of_int n :: real\<bar> < 2 ^ 53" using assms(2) by (metis of_int_abs of_int_less_numeral_power_cancel_iff)
  from a have "0 \<le> log 2 \<bar>of_int n :: real\<bar>" by simp
  then show "0 \<le> \<lfloor>log 2 \<bar>of_int n :: real\<bar>\<rfloor>" by simp
  from a b have "log 2 \<bar>of_int n :: real\<bar> < 53"
    by (simp add: log_less_iff powr_realpow)
  then have "\<lfloor>log 2 \<bar>of_int n :: real\<bar>\<rfloor> < 53" by (simp add: floor_less_iff)
  then show "\<lfloor>log 2 \<bar>of_int n :: real\<bar>\<rfloor> \<le> 52" by simp
qed

lemma representable_int:
  assumes "\<bar>n\<bar> < 2 ^ 53"
  shows "representable (of_int n)"
proof (cases "n = 0")
  case True
  then show ?thesis by (simp add: representable_def round_double_def)
next
  case False
  then have one: "1 \<le> \<bar>n\<bar>" by simp
  define e where "e = \<lfloor>log 2 \<bar>of_int n :: real\<bar>\<rfloor>"
  have e: "0 \<le> e" "e \<le> 52" unfolding e_def using floor_log2_int [OF one assms] by simp_all
  then have b: "binade (of_int n) = e" by (simp add: binade_def e_def)
  have ulp: "(2::real) powi (e - 52) = 1 / 2 ^ nat (52 - e)"
    using e by (simp add: power_int_def field_simps) 
  have q: "of_int n / 2 powi (e - 52) = (of_int (n * 2 ^ nat (52 - e)) :: real)"
    by (simp add: ulp)
  have y: "of_int (round_ties_even (of_int n / 2 powi (e - 52))) * 2 powi (e - 52) = (of_int n :: real)"
    unfolding q rte_int by (simp add: ulp)
  have "\<bar>of_int n :: real\<bar> < 2 ^ 53" using assms by (metis of_int_abs of_int_less_numeral_power_cancel_iff)
  moreover have "(2::real) ^ 53 \<le> overflow_threshold" by (simp add: overflow_threshold_def)
  ultimately have small: "\<not> overflow_threshold \<le> of_int n" "\<not> (of_int n :: real) \<le> - overflow_threshold"
    by linarith+
  show ?thesis
    unfolding representable_def round_double_def Let_def b y using False small by simp
qed


lemma sqrt_25: "sqrt 25 = 5"
  by (rule real_sqrt_unique) simp_all

lemma exact_3_4_5: "exact_evaluation [3, 0] [0, 4]"
  using representable_int [of 3] representable_int [of "- 4"] representable_int [of 9]
    representable_int [of 16] representable_int [of 25] representable_int [of 5]
  by (simp add: exact_evaluation_def sqrt_25)

lemma true_distance_3_4_5: "true_distance [3, 0] [0, 4] = 5"
  by (simp add: true_distance_def sqrt_25)

section \<open>Facts about the staging loops\<close>

lemma take_update_snoc: "j < length xs \<Longrightarrow> take (Suc j) (xs[j := v]) = take j xs @ [v]"
  by (simp add: take_Suc_conv_app_nth)

lemma length_mat_col: "length (mat_col A i) = n_rows A"
  by (simp add: mat_col_def)

text \<open>
  The inner loop, entered at \<open>j\<close> with a buffer of the right size, ends normally; it has
  overwritten the cells from \<open>j\<close> on with column \<open>i\<close> and changed nothing else.
\<close>

lemma fill_column_result:
  assumes "i < n_cols (referenceData s)" and "length (m s) = n_rows (referenceData s)"
    and "j \<le> n_rows (referenceData s)"
  shows "fill_column i j s =
           Inr (s\<lparr>m := take j (m s) @
                       map (\<lambda>r. mem (referenceData s) ! (r + i * n_rows (referenceData s)))
                         [j..<n_rows (referenceData s)]\<rparr>)"
  using assms
proof (induction i j s rule: fill_column.induct)
  case (1 i j s)
  let ?A = "referenceData s"
  show ?case
  proof (cases "j < n_rows ?A")
    case False
    then have "fill_column i j s = Inr s"
      by (simp add: fill_column.simps [of i j s])
    moreover from False "1.prems" have "take j (m s) = m s" and "[j..<n_rows ?A] = []"
      by simp_all
    ultimately show ?thesis by simp
  next
    case True
    let ?v = "mem ?A ! (j + i * n_rows ?A)"
    have at: "mat_at ?A j i = Inr ?v"
      using True "1.prems" by (simp add: mat_at_def)
    have st: "vec_set (m s) j ?v = Inr ((m s)[j := ?v])"
      using True "1.prems" by (simp add: vec_set_def)
    have "fill_column i (Suc j) (s\<lparr>m := (m s)[j := ?v]\<rparr>) =
            Inr (s\<lparr>m := (m s)[j := ?v]\<rparr>
                  \<lparr>m := take (Suc j) ((m s)[j := ?v]) @
                         map (\<lambda>r. mem ?A ! (r + i * n_rows ?A)) [Suc j..<n_rows ?A]\<rparr>)"
      using "1.IH" [OF True at st] True "1.prems" by simp
    moreover have "take (Suc j) ((m s)[j := ?v]) = take j (m s) @ [?v]"
      using True "1.prems" by (simp add: take_update_snoc)
    ultimately show ?thesis
      using True at st
      by (simp add: fill_column.simps [of i j s] upt_conv_Cons)
  qed
qed

lemma fill_column_from_zero:
  assumes "i < n_cols (referenceData s)" and "length (m s) = n_rows (referenceData s)"
  shows "fill_column i 0 s = Inr (s\<lparr>m := mat_col (referenceData s) i\<rparr>)"
  using fill_column_result [OF assms, of 0] by (simp add: mat_col_def)

text \<open>
  The outer loop, entered at \<open>i\<close>, ends normally: it leaves the matrix as it was and has
  appended the columns from \<open>i\<close> on, in order.
\<close>

lemma stage_columns_result:
  assumes "length (m s) = n_rows (referenceData s)" and "i \<le> n_cols (referenceData s)"
  shows "\<exists>s'. stage_columns i s = Inr s' \<and> referenceData s' = referenceData s \<and>
           samples_train s' =
             samples_train s @ map (mat_col (referenceData s)) [i..<n_cols (referenceData s)]"
  using assms
proof (induction i s rule: stage_columns.induct)
  case (1 i s)
  let ?A = "referenceData s"
  show ?case
  proof (cases "i < n_cols ?A")
    case False
    then show ?thesis by (simp add: stage_columns.simps [of i s])
  next
    case True
    let ?s1 = "s\<lparr>m := mat_col ?A i\<rparr>"
    let ?s2 = "?s1\<lparr>samples_train := samples_train ?s1 @ [m ?s1]\<rparr>"
    have fc: "fill_column i 0 s = Inr ?s1"
      using True "1.prems" by (simp add: fill_column_from_zero)
    have "\<exists>s'. stage_columns (Suc i) ?s2 = Inr s' \<and> referenceData s' = referenceData ?s2 \<and>
           samples_train s' =
             samples_train ?s2 @
             map (mat_col (referenceData ?s2)) [Suc i..<n_cols (referenceData ?s2)]"
      using True by (intro "1.IH" [OF True fc]) (simp_all add: length_mat_col)
    then show ?thesis
      using True fc by (simp add: stage_columns.simps [of i s] upt_conv_Cons)
  qed
qed

lemma stage_columns_buffer:
  assumes "length (m s) = n_rows (referenceData s)" and "i \<le> n_cols (referenceData s)"
  shows "\<exists>s'. stage_columns i s = Inr s' \<and>
           m s' = (if i < n_cols (referenceData s)
                   then mat_col (referenceData s) (n_cols (referenceData s) - 1) else m s)"
  using assms
proof (induction i s rule: stage_columns.induct)
  case (1 i s)
  let ?A = "referenceData s"
  show ?case
  proof (cases "i < n_cols ?A")
    case False
    then show ?thesis by (simp add: stage_columns.simps [of i s])
  next
    case True
    let ?s1 = "s\<lparr>m := mat_col ?A i\<rparr>"
    let ?s2 = "?s1\<lparr>samples_train := samples_train ?s1 @ [m ?s1]\<rparr>"
    have fc: "fill_column i 0 s = Inr ?s1"
      using True "1.prems" by (simp add: fill_column_from_zero)
    have "\<exists>s'. stage_columns (Suc i) ?s2 = Inr s' \<and>
           m s' = (if Suc i < n_cols (referenceData ?s2)
                   then mat_col (referenceData ?s2) (n_cols (referenceData ?s2) - 1)
                   else m ?s2)"
      using True by (intro "1.IH" [OF True fc]) (simp_all add: length_mat_col)
    moreover have "i = n_cols ?A - 1" if "\<not> Suc i < n_cols ?A"
      using that True by simp
    ultimately show ?thesis
      using True fc by (auto simp add: stage_columns.simps [of i s])
  qed
qed

lemma stage_result:
  "\<exists>s. stage uninit A = Inr s \<and> referenceData s = A \<and>
        samples_train s = map (mat_col A) [0..<n_cols A]"
  using stage_columns_result
    [of "\<lparr>referenceData = A, m = set_size uninit (n_rows A), samples_train = []\<rparr>" 0]
  by (simp add: stage_def set_size_def)

lemma stage_closed_form:
  "stage uninit A =
     Inr \<lparr>referenceData = A,
          m = (if 0 < n_cols A then mat_col A (n_cols A - 1) else set_size uninit (n_rows A)),
          samples_train = map (mat_col A) [0..<n_cols A]\<rparr>"
proof -
  let ?s0 = "\<lparr>referenceData = A, m = set_size uninit (n_rows A), samples_train = []\<rparr>"
  have len: "length (m ?s0) = n_rows (referenceData ?s0)" by (simp add: set_size_def)
  from stage_columns_result [OF len, of 0] stage_columns_buffer [OF len, of 0]
  obtain s where "stage_columns 0 ?s0 = Inr s" and "referenceData s = A"
    and "samples_train s = map (mat_col A) [0..<n_cols A]"
    and "m s = (if 0 < n_cols A then mat_col A (n_cols A - 1) else set_size uninit (n_rows A))"
    by auto
  then show ?thesis by (simp add: stage_def)
qed

lemma stage_unit_mat:
  "stage uninit unit_mat =
     Inr \<lparr>referenceData = unit_mat, m = [Finite 0], samples_train = [[Finite 0]]\<rparr>"
  by (simp add: stage_closed_form mat_col_def unit_mat_def)

lemma stage_inf_mat:
  "stage uninit inf_mat =
     Inr \<lparr>referenceData = inf_mat, m = [PInf], samples_train = [[PInf], [PInf]]\<rparr>"
  by (simp add: stage_closed_form inf_mat_def numeral_2_eq_2 mat_col_def)

lemma list_of_two: "length v = 2 \<Longrightarrow> v = [v ! 0, v ! 1]"
  by (auto simp add: numeral_2_eq_2 length_Suc_conv)

lemma list_of_three: "length v = 3 \<Longrightarrow> v = [v ! 0, v ! 1, v ! 2]"
  by (auto simp add: numeral_3_eq_3 length_Suc_conv)

section \<open>Facts about mlpackMain\<close>

lemma mlpackMain_loaded:
  assumes "Load (reference_file cli) = Inr A" and "stage uninit A = Inr s"
  shows "mlpackMain Load search uninit cli =
     (case search (samples_train s) euclidean_distance_default (scast (k_param cli)) of
        Inl e \<Rightarrow>
          (Inl e, [LogInfo (reference_file cli) (n_rows A) (n_cols A),
                   TimerStart ''Nearest_Neighbors'',
                   SearchCall (samples_train s) euclidean_distance_default (scast (k_param cli))])
      | Inr out \<Rightarrow>
          (Inr out, [LogInfo (reference_file cli) (n_rows A) (n_cols A),
                     TimerStart ''Nearest_Neighbors'',
                     SearchCall (samples_train s) euclidean_distance_default (scast (k_param cli)),
                     TimerStop ''Nearest_Neighbors'']))"
  using assms by (simp add: mlpackMain_def Let_def split: sum.splits)

lemma mlpackMain_load_failed:
  "Load (reference_file cli) = Inl e \<Longrightarrow> mlpackMain Load search uninit cli = (Inl e, [])"
  by (simp add: mlpackMain_def Let_def)

lemma demo_load_demo_cli: "demo_load (reference_file demo_cli) = Inr unit_mat"
  by (simp add: demo_load_def demo_cli_def)

lemma demo_load_negative_cli: "demo_load (reference_file negative_cli) = Inr unit_mat"
  by (simp add: demo_load_def negative_cli_def)

lemma search_call_in_trace:
  "SearchCall S ed kk \<in> set (snd (mlpackMain Load search uninit cli)) \<Longrightarrow>
   ed = euclidean_distance_default \<and> kk = scast (k_param cli)"
  by (auto simp add: mlpackMain_def Let_def split: sum.splits)

lemma inf_load_demo_cli: "inf_load (reference_file demo_cli) = Inr inf_mat"
  by (simp add: inf_load_def demo_cli_def)

lemma demo_load_missing_cli: "demo_load (reference_file missing_cli) = Inl LoadFailure"
  by (simp add: demo_load_def missing_cli_def)

lemma uint_scast_mod:
  fixes w :: "32 word"
  shows "uint (scast w :: 64 word) = sint w mod 2 ^ 64"
proof -
  have "uint (scast w :: 64 word) = uint (word_of_int (sint w) :: 64 word)"
    by (simp only: scast_eq)
  also have "\<dots> = sint w mod 2 ^ LENGTH(64)"
    by (rule uint_word_of_int)
  finally show ?thesis by simp
qed

lemma uint_scast_negative:
  fixes w :: "32 word"
  assumes "sint w < 0"
  shows "uint (scast w :: 64 word) = 2 ^ 64 + sint w"
proof -
  have lo: "- (2 ^ 31) \<le> sint w"
    using sint_ge [of w] by simp
  have "sint w mod 2 ^ 64 = (sint w + 2 ^ 64) mod 2 ^ 64"
    by simp
  also have "\<dots> = sint w + 2 ^ 64"
    using lo assms by (intro mod_pos_pos_trivial) simp_all
  finally show ?thesis by (simp add: uint_scast_mod)
qed

section \<open>The claims\<close>

subsection \<open>C1: the result of the bounded metric\<close>

text \<open>
  C1 (amended). For equal-length vectors \<open>a\<close>, \<open>b\<close> and bounds with \<open>0 \<le> lower\<close>, the
  metric returns normally. Its result is the length \<open>len\<close> that binary64 arithmetic
  computes for \<open>sqrt(sum_j (a[j] - b[j])^2)\<close> when \<open>lower \<le> len \<le> upper\<close>, and
  positive infinity otherwise; it is never NaN and never negative. When the entries are
  finite and the evaluation is exact, \<open>len\<close> is the true Euclidean distance \<open>d\<close>: the
  result is then \<open>d\<close> when \<open>lower \<le> d \<le> upper\<close> and positive infinity when \<open>d\<close> is
  outside the bounds.
\<close>

theorem bounded_metric_result:
  assumes "length a = length b" and "fle (Finite 0) l"
  shows "\<exists>r. euclidean_distance_call (euclidean_distance_bounds l u) a b = Inr r \<and>
           r = (if fle l (fsqrt (length_squared (map2 fsub a b))) \<and>
                   fle (fsqrt (length_squared (map2 fsub a b))) u
                then fsqrt (length_squared (map2 fsub a b)) else PInf) \<and>
           r \<noteq> NaN \<and> fle (Finite 0) r \<and>
           (\<forall>xs ys. a = map Finite xs \<and> b = map Finite ys \<and> exact_evaluation xs ys \<longrightarrow>
              r = (if fle l (Finite (true_distance xs ys)) \<and>
                      fle (Finite (true_distance xs ys)) u
                   then Finite (true_distance xs ys) else PInf))"
proof -
  define len where "len = fsqrt (length_squared (map2 fsub a b))"
  define r where "r = (if fle l len \<and> fle len u then len else PInf)"
  have call: "euclidean_distance_call (euclidean_distance_bounds l u) a b = Inr r"
    using assms(1)
    by (simp add: call_equal_length euclidean_distance_bounds_def Let_def r_def len_def)
  have nn: "fle (Finite 0) r"
  proof (cases "fle l len \<and> fle len u")
    case True
    with assms(2) have "fle (Finite 0) len" using fle_trans by blast
    with True show ?thesis by (simp add: r_def)
  next
    case False
    then have "r = PInf" by (auto simp add: r_def)
    then show ?thesis by simp
  qed
  have nan: "r \<noteq> NaN"
    using nn fle_NaN_right by metis
  have exact: "r = (if fle l (Finite (true_distance xs ys)) \<and>
                      fle (Finite (true_distance xs ys)) u
                   then Finite (true_distance xs ys) else PInf)"
    if "a = map Finite xs \<and> b = map Finite ys \<and> exact_evaluation xs ys" for xs ys
  proof -
    from that have "len = Finite (true_distance xs ys)"
      unfolding len_def using len_exact [of xs ys] by simp
    then show ?thesis by (simp only: r_def)
  qed
  show ?thesis
  proof (rule exI [where x = r], intro conjI allI impI)
    show "euclidean_distance_call (euclidean_distance_bounds l u) a b = Inr r"
      by (rule call)
    show "r = (if fle l (fsqrt (length_squared (map2 fsub a b))) \<and>
                  fle (fsqrt (length_squared (map2 fsub a b))) u
               then fsqrt (length_squared (map2 fsub a b)) else PInf)"
      by (simp only: r_def len_def)
    show "r \<noteq> NaN" by (rule nan)
    show "fle (Finite 0) r" by (rule nn)
    show "r = (if fle l (Finite (true_distance xs ys)) \<and>
                  fle (Finite (true_distance xs ys)) u
               then Finite (true_distance xs ys) else PInf)"
      if "a = map Finite xs \<and> b = map Finite ys \<and> exact_evaluation xs ys" for xs ys
      using that by (rule exact)
  qed
qed

text \<open>
  The theorem at \<open>a = (3, 0)\<close>, \<open>b = (0, 4)\<close> with the bounds \<open>(0, 10)\<close>: the
  evaluation is exact and the true distance 5 is returned.
\<close>

theorem bounded_metric_result_witness:
  "length [Finite 3, Finite 0] = length [Finite 0, Finite 4] \<and> fle (Finite 0) (Finite 0) \<and>
   exact_evaluation [3, 0] [0, 4] \<and> true_distance [3, 0] [0, 4] = 5 \<and>
   euclidean_distance_call (euclidean_distance_bounds (Finite 0) (Finite 10))
     [Finite 3, Finite 0] [Finite 0, Finite 4] = Inr (Finite 5)"
proof -
  have len: "length [Finite 3, Finite 0] = length [Finite 0, Finite 4]"
    and lo: "fle (Finite 0) (Finite 0)"
    by simp_all
  from bounded_metric_result [OF len lo, of "Finite 10"]
  obtain r where
    call: "euclidean_distance_call (euclidean_distance_bounds (Finite 0) (Finite 10))
             [Finite 3, Finite 0] [Finite 0, Finite 4] = Inr r" and
    exact: "\<forall>xs ys. [Finite 3, Finite 0] = map Finite xs \<and>
              [Finite 0, Finite 4] = map Finite ys \<and> exact_evaluation xs ys \<longrightarrow>
              r = (if fle (Finite 0) (Finite (true_distance xs ys)) \<and>
                      fle (Finite (true_distance xs ys)) (Finite 10)
                   then Finite (true_distance xs ys) else PInf)"
    by (elim exE conjE)
  from exact [THEN spec, THEN spec, of "[3, 0]" "[0, 4]"] have "r = Finite 5"
    by (simp add: exact_3_4_5 true_distance_3_4_5)
  with call show ?thesis
    by (simp add: exact_3_4_5 true_distance_3_4_5)
qed

text \<open>
  C1 as stated fails: for \<open>a = (2 powi 600)\<close>, \<open>b = (0)\<close> and the bounds
  \<open>(0, 2 powi 700)\<close> the true distance \<open>2 powi 600\<close> lies within the bounds, but the
  square overflows and the metric returns positive infinity.
\<close>

theorem bounded_metric_counterexample:
  "euclidean_distance_call (euclidean_distance_bounds (Finite 0) (Finite (2 powi 700)))
     [Finite (2 powi 600)] [Finite 0] = Inr PInf \<and>
   true_distance [2 powi 600] [0] = 2 powi 600 \<and>
   (0::real) \<le> 2 powi 600 \<and> (2 powi 600 :: real) \<le> 2 powi 700"
proof -
  have "length [Finite (2 powi 600)] = length [Finite 0]" by simp
  then have "euclidean_distance_call
               (euclidean_distance_bounds (Finite 0) (Finite (2 powi 700)))
               [Finite (2 powi 600)] [Finite 0] = Inr PInf"
    by (simp only: call_equal_length len_square_overflows Let_def if_cancel)
  moreover have nn: "(0::real) \<le> 2 powi 600" by (rule zero_le_power_int) simp
  moreover have "true_distance [2 powi 600] [0] = 2 powi 600"
    using nn by (simp only: true_distance_single diff_zero abs_of_nonneg)
  moreover have "(2 powi 600 :: real) \<le> 2 powi 700"
    by (rule power_int_increasing) simp_all
  ultimately show ?thesis by (simp only: simp_thms)
qed

subsection \<open>C2: what the staging loops build\<close>

text \<open>
  C2. For every matrix with \<open>R\<close> rows and \<open>C\<close> columns the staging step ends normally
  with exactly \<open>C\<close> samples, each of length \<open>R\<close>, in column order: element \<open>j\<close> of
  sample \<open>i\<close> is the matrix entry at row \<open>j\<close>, column \<open>i\<close>.
\<close>

theorem stage_samples:
  assumes "wf_mat A"
  shows "\<exists>s. stage uninit A = Inr s \<and> length (samples_train s) = n_cols A \<and>
           (\<forall>i<n_cols A. length (samples_train s ! i) = n_rows A \<and>
              (\<forall>j<n_rows A. mat_at A j i = Inr (samples_train s ! i ! j)))"
proof -
  from stage_result obtain s where
    "stage uninit A = Inr s" and "samples_train s = map (mat_col A) [0..<n_cols A]"
    by blast
  then show ?thesis
    by (auto simp add: mat_col_def mat_at_def)
qed

text \<open>
  The theorem at the 2 x 3 matrix with rows \<open>(0, 1, 2)\<close> and \<open>(0, 1, 2)\<close>: the samples
  are \<open>(0, 0)\<close>, \<open>(1, 1)\<close>, \<open>(2, 2)\<close>.
\<close>

theorem stage_samples_witness:
  "wf_mat scenario_mat \<and>
   (\<exists>s. stage (\<lambda>c. NaN) scenario_mat = Inr s \<and>
        samples_train s =
          [[Finite 0, Finite 0], [Finite 1, Finite 1], [Finite 2, Finite 2]])"
proof -
  have wf: "wf_mat scenario_mat"
    by (simp add: wf_mat_def scenario_mat_def)
  from stage_samples [OF wf, of "\<lambda>c. NaN"] obtain s where
    st: "stage (\<lambda>c. NaN) scenario_mat = Inr s" and
    len: "length (samples_train s) = n_cols scenario_mat" and
    each: "\<And>i. i < n_cols scenario_mat \<Longrightarrow>
              length (samples_train s ! i) = n_rows scenario_mat \<and>
              (\<forall>j<n_rows scenario_mat. mat_at scenario_mat j i = Inr (samples_train s ! i ! j))"
    by blast
  have col: "samples_train s ! i = [mem scenario_mat ! (i * 2), mem scenario_mat ! (1 + i * 2)]"
    if "i < 3" for i
  proof -
    from that each [of i]
    have l: "length (samples_train s ! i) = 2"
      and "mat_at scenario_mat 0 i = Inr (samples_train s ! i ! 0)"
      and "mat_at scenario_mat 1 i = Inr (samples_train s ! i ! 1)"
      by (simp_all add: scenario_mat_def)
    with that have "samples_train s ! i ! 0 = mem scenario_mat ! (i * 2)"
      and "samples_train s ! i ! 1 = mem scenario_mat ! (1 + i * 2)"
      by (simp_all add: mat_at_def scenario_mat_def)
    with list_of_two [OF l] show ?thesis by simp
  qed
  from len have "samples_train s = [samples_train s ! 0, samples_train s ! 1, samples_train s ! 2]"
    by (intro list_of_three) (simp add: scenario_mat_def)
  also have "\<dots> = [[Finite 0, Finite 0], [Finite 1, Finite 1], [Finite 2, Finite 2]]"
    using col [of 0] col [of 1] col [of 2] by (simp add: scenario_mat_def)
  finally show ?thesis using wf st by blast
qed

subsection \<open>C3: the default bounds\<close>

text \<open>
  C3 (amended). With the default bounds \<open>(0, +infinity)\<close> and equal-length vectors of
  finite entries, the bound test never excludes: the metric returns the length \<open>len\<close>
  that binary64 arithmetic computes for \<open>sqrt(sum_j (a[j] - b[j])^2)\<close>, which is not NaN
  and not negative, and which is the true Euclidean distance when the evaluation is
  exact. That length is positive infinity when the computation overflows.
\<close>

theorem default_bounds_no_exclusion:
  assumes "length a = length b" and "list_all is_finite a" and "list_all is_finite b"
  shows "euclidean_distance_call euclidean_distance_default a b =
           Inr (fsqrt (length_squared (map2 fsub a b))) \<and>
         fsqrt (length_squared (map2 fsub a b)) \<noteq> NaN \<and>
         fle (Finite 0) (fsqrt (length_squared (map2 fsub a b))) \<and>
         (\<forall>xs ys. a = map Finite xs \<and> b = map Finite ys \<and> exact_evaluation xs ys \<longrightarrow>
            euclidean_distance_call euclidean_distance_default a b =
              Inr (Finite (true_distance xs ys)))"
proof -
  have nn: "fle (Finite 0) (fsqrt (length_squared (map2 fsub a b)))"
    using assms by (rule len_finite_inputs)
  then have "fsqrt (length_squared (map2 fsub a b)) \<noteq> NaN"
    using fle_NaN_right by metis
  moreover have "euclidean_distance_call euclidean_distance_default a b =
                   Inr (Finite (true_distance xs ys))"
    if "a = map Finite xs \<and> b = map Finite ys \<and> exact_evaluation xs ys" for xs ys
    using that default_call_finite [OF assms] len_exact [of xs ys] by simp
  ultimately show ?thesis
    using nn default_call_finite [OF assms] by (intro conjI allI impI)
qed

text \<open>
  The theorem at \<open>a = (3, 0)\<close>, \<open>b = (0, 4)\<close>: the evaluation is exact and the true
  distance 5 is returned.
\<close>

theorem default_bounds_no_exclusion_witness:
  "length [Finite 3, Finite 0] = length [Finite 0, Finite 4] \<and>
   list_all is_finite [Finite 3, Finite 0] \<and> list_all is_finite [Finite 0, Finite 4] \<and>
   exact_evaluation [3, 0] [0, 4] \<and> true_distance [3, 0] [0, 4] = 5 \<and>
   euclidean_distance_call euclidean_distance_default
     [Finite 3, Finite 0] [Finite 0, Finite 4] = Inr (Finite 5)"
proof -
  have len: "length [Finite 3, Finite 0] = length [Finite 0, Finite 4]"
    and fa: "list_all is_finite [Finite 3, Finite 0]"
    and fb: "list_all is_finite [Finite 0, Finite 4]"
    by simp_all
  note inst = default_bounds_no_exclusion [OF len fa fb, THEN conjunct2, THEN conjunct2,
      THEN conjunct2, THEN spec, THEN spec, of "[3, 0]" "[0, 4]"]
  have "euclidean_distance_call euclidean_distance_default
          [Finite 3, Finite 0] [Finite 0, Finite 4] = Inr (Finite (true_distance [3, 0] [0, 4]))"
    by (rule inst [THEN mp]) (simp add: exact_3_4_5)
  then show ?thesis
    by (simp add: exact_3_4_5 true_distance_3_4_5)
qed

text \<open>
  C3 as stated fails: \<open>a = (2 powi 1023)\<close> and \<open>b = (- (2 powi 1023))\<close> are finite and
  their distance is the real number \<open>2 * 2 powi 1023\<close>, but the difference overflows
  and the metric with the default bounds returns positive infinity.
\<close>

theorem default_bounds_counterexample:
  "euclidean_distance_call euclidean_distance_default
     [Finite (2 powi 1023)] [Finite (- (2 powi 1023))] = Inr PInf \<and>
   list_all is_finite [Finite (2 powi 1023)] \<and>
   list_all is_finite [Finite (- (2 powi 1023))] \<and>
   true_distance [2 powi 1023] [- (2 powi 1023)] = 2 * 2 powi 1023"
proof -
  have "length [Finite (2 powi 1023)] = length [Finite (- (2 powi 1023))]"
    by simp
  then have "euclidean_distance_call euclidean_distance_default
     [Finite (2 powi 1023)] [Finite (- (2 powi 1023))] = Inr PInf"
    by (simp only: call_equal_length len_difference_overflows Let_def if_cancel)
  moreover have "(0::real) \<le> 2 powi 1023" by (rule zero_le_power_int) simp
  then have "true_distance [2 powi 1023] [- (2 powi 1023)] = 2 * 2 powi 1023"
    by (simp only: true_distance_single diff_minus_eq_add)
  ultimately show ?thesis
    by (simp only: list.pred_inject is_finite.simps simp_thms)
qed

subsection \<open>C4: totality, and vectors of length zero\<close>

text \<open>
  C4 (amended). The metric returns normally for equal-length vectors of any length. For
  two vectors of length zero it returns 0 when \<open>lower \<le> 0 \<le> upper\<close>, in particular
  when \<open>lower\<close> is 0, and positive infinity for every other pair of bounds.
\<close>

theorem metric_total_and_empty:
  "(length a = length b \<longrightarrow> (\<exists>r. euclidean_distance_call ed a b = Inr r)) \<and>
   euclidean_distance_call (euclidean_distance_bounds l u) [] [] =
     Inr (if fle l (Finite 0) \<and> fle (Finite 0) u then Finite 0 else PInf)"
  by (simp add: call_equal_length len_empty euclidean_distance_bounds_def Let_def)

text \<open>
  The theorem at \<open>a = (1)\<close>, \<open>b = (0)\<close> for the first part and at the default bounds
  for the second.
\<close>

theorem metric_total_and_empty_witness:
  "length [Finite 1] = length [Finite 0] \<and>
   (\<exists>r. euclidean_distance_call euclidean_distance_default [Finite 1] [Finite 0] = Inr r) \<and>
   euclidean_distance_call (euclidean_distance_bounds (Finite 0) PInf) [] [] = Inr (Finite 0)"
  using metric_total_and_empty
    [of "[Finite 1]" "[Finite 0]" euclidean_distance_default "Finite 0" PInf]
  by simp

text \<open>
  C4 as stated fails: the bounds \<open>(1, 2)\<close> satisfy \<open>0 \<le> lower \<le> upper\<close>, and the
  metric returns positive infinity on two vectors of length zero, since their distance
  0 is below \<open>lower\<close>.
\<close>

theorem metric_empty_counterexample:
  "fle (Finite 0) (Finite 1) \<and> fle (Finite 1) (Finite 2) \<and>
   euclidean_distance_call (euclidean_distance_bounds (Finite 1) (Finite 2)) [] [] = Inr PInf"
  by (simp add: call_equal_length len_empty euclidean_distance_bounds_def)

subsection \<open>C5: the timer around the search\<close>

text \<open>
  C5 (amended). In every run whose load succeeds, the timer "Nearest\_Neighbors" is
  started immediately before the external search call. When the call returns, the
  timer is stopped after it. When the call fails, the failure leaves mlpackMain at once
  and the stop is not executed.
\<close>

theorem timer_bracket:
  assumes "Load (reference_file cli) = Inr A"
  shows "\<exists>s. stage uninit A = Inr s \<and>
     (case search (samples_train s) euclidean_distance_default (scast (k_param cli)) of
        Inr out \<Rightarrow>
          mlpackMain Load search uninit cli =
            (Inr out, [LogInfo (reference_file cli) (n_rows A) (n_cols A),
                       TimerStart ''Nearest_Neighbors'',
                       SearchCall (samples_train s) euclidean_distance_default
                         (scast (k_param cli)),
                       TimerStop ''Nearest_Neighbors''])
      | Inl e \<Rightarrow>
          mlpackMain Load search uninit cli =
            (Inl e, [LogInfo (reference_file cli) (n_rows A) (n_cols A),
                     TimerStart ''Nearest_Neighbors'',
                     SearchCall (samples_train s) euclidean_distance_default
                       (scast (k_param cli))]))"
proof -
  from stage_result obtain s where st: "stage uninit A = Inr s" by blast
  show ?thesis
    using st mlpackMain_loaded [where Load = Load and cli = cli and search = search, OF assms st]
    by (auto split: sum.splits)
qed

text \<open>The theorem at a run whose search returns the empty list of pairs.\<close>

theorem timer_bracket_witness:
  "demo_load (reference_file demo_cli) = Inr unit_mat \<and>
   mlpackMain demo_load (\<lambda>S ed kk. Inr []) (\<lambda>c. NaN) demo_cli =
     (Inr [],
      [LogInfo ''data.csv'' 1 1, TimerStart ''Nearest_Neighbors'',
       SearchCall [[Finite 0]] euclidean_distance_default 1,
       TimerStop ''Nearest_Neighbors''])"
  using timer_bracket [of demo_load demo_cli unit_mat "\<lambda>c. NaN" "\<lambda>S ed kk. Inr []"]
  by (simp add: stage_unit_mat demo_load_demo_cli) (simp add: demo_cli_def unit_mat_def)

text \<open>
  C5 as stated fails: in a run whose search fails, the failure is the result of
  mlpackMain and the trace ends with the search call; the timer is never stopped.
\<close>

theorem timer_counterexample:
  "mlpackMain demo_load (\<lambda>S ed kk. Inl SearchFailure) (\<lambda>c. NaN) demo_cli =
     (Inl SearchFailure,
      [LogInfo ''data.csv'' 1 1, TimerStart ''Nearest_Neighbors'',
       SearchCall [[Finite 0]] euclidean_distance_default 1]) \<and>
   TimerStop ''Nearest_Neighbors'' \<notin>
     set (snd (mlpackMain demo_load (\<lambda>S ed kk. Inl SearchFailure) (\<lambda>c. NaN) demo_cli))"
proof -
  have "mlpackMain demo_load (\<lambda>S ed kk. Inl SearchFailure) (\<lambda>c. NaN) demo_cli =
     (Inl SearchFailure,
      [LogInfo ''data.csv'' 1 1, TimerStart ''Nearest_Neighbors'',
       SearchCall [[Finite 0]] euclidean_distance_default 1])"
    by (simp add: mlpackMain_def stage_unit_mat demo_load_demo_cli)
       (simp add: demo_cli_def unit_mat_def)
  then show ?thesis by simp
qed

subsection \<open>C6: symmetry\<close>

text \<open>
  C6. The metric is symmetric: for all bounds and all vectors \<open>a\<close>, \<open>b\<close> (of equal
  length or not), applying it to \<open>(a, b)\<close> and to \<open>(b, a)\<close> gives the same result.
\<close>

theorem metric_symmetric:
  "euclidean_distance_call ed a b = euclidean_distance_call ed b a"
proof (cases "length a = length b")
  case True
  then show ?thesis
    by (simp add: euclidean_distance_call_def mat_sub_def length_squared_swap [of b a])
next
  case False
  then show ?thesis
    by (auto simp add: euclidean_distance_call_def mat_sub_def)
qed

text \<open>The theorem at \<open>a = (1)\<close>, \<open>b = (0)\<close>: both orders give the distance 1.\<close>

theorem metric_symmetric_witness:
  "euclidean_distance_call euclidean_distance_default [Finite 1] [Finite 0] = Inr (Finite 1) \<and>
   euclidean_distance_call euclidean_distance_default [Finite 0] [Finite 1] = Inr (Finite 1)"
  using metric_symmetric [of euclidean_distance_default "[Finite 1]" "[Finite 0]"]
  by (simp add: call_equal_length len_unit_swapped euclidean_distance_default_def)

subsection \<open>C7: the distance of a vector to itself\<close>

text \<open>
  C7 (amended). For every vector \<open>a\<close> whose entries are all finite and all bounds with
  \<open>lower \<le> 0 \<le> upper\<close> (the default bounds among them), the metric applied to
  \<open>(a, a)\<close> returns 0.
\<close>

theorem metric_identity:
  assumes "list_all is_finite a" and "fle l (Finite 0)" and "fle (Finite 0) u"
  shows "euclidean_distance_call (euclidean_distance_bounds l u) a a = Inr (Finite 0)"
  using assms
  by (simp add: call_equal_length len_self euclidean_distance_bounds_def)

text \<open>The theorem at \<open>a = (1, 2)\<close> with the bounds \<open>(0, +infinity)\<close>.\<close>

theorem metric_identity_witness:
  "list_all is_finite [Finite 1, Finite 2] \<and> fle (Finite 0) (Finite 0) \<and>
   fle (Finite 0) PInf \<and>
   euclidean_distance_call (euclidean_distance_bounds (Finite 0) PInf)
     [Finite 1, Finite 2] [Finite 1, Finite 2] = Inr (Finite 0)"
  using metric_identity [of "[Finite 1, Finite 2]" "Finite 0" PInf]
  by simp

text \<open>
  C7 as stated fails: 0 lies within the default bounds, but for the vector whose one
  entry is positive infinity the difference is NaN, both comparisons are false, and the
  metric returns positive infinity.
\<close>

theorem metric_identity_counterexample:
  "fle (lower euclidean_distance_default) (Finite 0) \<and>
   fle (Finite 0) (upper euclidean_distance_default) \<and>
   euclidean_distance_call euclidean_distance_default [PInf] [PInf] = Inr PInf"
  by (simp add: call_equal_length euclidean_distance_default_def length_squared_def fsub_def)

subsection \<open>C8: the matrix is left as it was\<close>

text \<open>
  C8. Staging does not change its input: for every matrix the staging step ends normally,
  and the matrix held in \<open>referenceData\<close> afterwards has the dimensions and the
  entries it had before.
\<close>

theorem stage_frame:
  "\<exists>s. stage uninit A = Inr s \<and> n_rows (referenceData s) = n_rows A \<and>
        n_cols (referenceData s) = n_cols A \<and> mem (referenceData s) = mem A"
  using stage_result [of uninit A] by auto

text \<open>The theorem at the 2 x 3 matrix.\<close>

theorem stage_frame_witness:
  "\<exists>s. stage (\<lambda>c. NaN) scenario_mat = Inr s \<and> n_rows (referenceData s) = 2 \<and>
        n_cols (referenceData s) = 3 \<and>
        mem (referenceData s) = [Finite 0, Finite 0, Finite 1, Finite 1, Finite 2, Finite 2]"
  using stage_frame [of "\<lambda>c. NaN" scenario_mat] by (simp add: scenario_mat_def)

subsection \<open>C9: the search always gets the default bounds\<close>

text \<open>
  C9 (amended). In every execution mlpackMain either fails at the load, and then makes
  no search call, or calls the external search exactly with the staged samples, the
  metric with the default bounds \<open>lower = 0\<close>, \<open>upper = +infinity\<close> and the converted
  \<open>k\<close>, and the outcome of that call is the outcome of the run: no command line and no
  dataset makes it pass other bounds. The metric it passes returns, for all
  equal-length vectors, their computed Euclidean length unless that length is NaN, in
  which case it returns positive infinity; for vectors of finite entries it always
  returns the computed length.
\<close>

theorem search_metric_default:
  "(\<forall>e. Load (reference_file cli) = Inl e \<longrightarrow>
      mlpackMain Load search uninit cli = (Inl e, [])) \<and>
   (\<forall>A. Load (reference_file cli) = Inr A \<longrightarrow>
      (\<exists>s. stage uninit A = Inr s \<and>
           fst (mlpackMain Load search uninit cli) =
             search (samples_train s) euclidean_distance_default (scast (k_param cli)) \<and>
           SearchCall (samples_train s) euclidean_distance_default (scast (k_param cli))
             \<in> set (snd (mlpackMain Load search uninit cli)))) \<and>
   (\<forall>S ed kk. SearchCall S ed kk \<in> set (snd (mlpackMain Load search uninit cli)) \<longrightarrow>
      ed = euclidean_distance_default) \<and>
   lower euclidean_distance_default = Finite 0 \<and>
   upper euclidean_distance_default = PInf \<and>
   (\<forall>a b. length a = length b \<longrightarrow>
      euclidean_distance_call euclidean_distance_default a b =
        Inr (if fsqrt (length_squared (map2 fsub a b)) = NaN then PInf
             else fsqrt (length_squared (map2 fsub a b)))) \<and>
   (\<forall>a b. length a = length b \<and> list_all is_finite a \<and> list_all is_finite b \<longrightarrow>
      euclidean_distance_call euclidean_distance_default a b =
        Inr (fsqrt (length_squared (map2 fsub a b))))"
proof (intro conjI allI impI)
  fix e assume "Load (reference_file cli) = Inl e"
  then show "mlpackMain Load search uninit cli = (Inl e, [])"
    by (rule mlpackMain_load_failed)
next
  fix A assume ld: "Load (reference_file cli) = Inr A"
  from stage_result obtain s where st: "stage uninit A = Inr s" by blast
  have "fst (mlpackMain Load search uninit cli) =
          search (samples_train s) euclidean_distance_default (scast (k_param cli)) \<and>
        SearchCall (samples_train s) euclidean_distance_default (scast (k_param cli))
          \<in> set (snd (mlpackMain Load search uninit cli))"
    by (simp add: mlpackMain_loaded
          [where Load = Load and cli = cli and search = search, OF ld st]
        split: sum.splits)
  with st show "\<exists>s. stage uninit A = Inr s \<and>
           fst (mlpackMain Load search uninit cli) =
             search (samples_train s) euclidean_distance_default (scast (k_param cli)) \<and>
           SearchCall (samples_train s) euclidean_distance_default (scast (k_param cli))
             \<in> set (snd (mlpackMain Load search uninit cli))"
    by blast
next
  fix S ed kk
  assume "SearchCall S ed kk \<in> set (snd (mlpackMain Load search uninit cli))"
  then show "ed = euclidean_distance_default"
    using search_call_in_trace by blast
next
  show "lower euclidean_distance_default = Finite 0"
    by (simp add: euclidean_distance_default_def)
next
  show "upper euclidean_distance_default = PInf"
    by (simp add: euclidean_distance_default_def)
next
  fix a b :: sample_typ assume "length a = length b"
  then show "euclidean_distance_call euclidean_distance_default a b =
        Inr (if fsqrt (length_squared (map2 fsub a b)) = NaN then PInf
             else fsqrt (length_squared (map2 fsub a b)))"
    by (rule default_call_any)
next
  fix a b :: sample_typ
  assume "length a = length b \<and> list_all is_finite a \<and> list_all is_finite b"
  then show "euclidean_distance_call euclidean_distance_default a b =
        Inr (fsqrt (length_squared (map2 fsub a b)))"
    by (simp add: default_call_finite)
qed

text \<open>
  The theorem at a run whose load fails, at a run that reaches the search, and at the
  vectors \<open>(1)\<close> and \<open>(0)\<close>, whose distance 1 the default metric returns.
\<close>

theorem search_metric_default_witness:
  "demo_load (reference_file missing_cli) = Inl LoadFailure \<and>
   mlpackMain demo_load probe_search (\<lambda>c. NaN) missing_cli = (Inl LoadFailure, []) \<and>
   inf_load (reference_file demo_cli) = Inr inf_mat \<and>
   fst (mlpackMain inf_load probe_search (\<lambda>c. NaN) demo_cli) =
     probe_search [[PInf], [PInf]] euclidean_distance_default 1 \<and>
   SearchCall [[PInf], [PInf]] euclidean_distance_default 1
     \<in> set (snd (mlpackMain inf_load probe_search (\<lambda>c. NaN) demo_cli)) \<and>
   length [Finite 1] = length [Finite 0] \<and>
   euclidean_distance_call euclidean_distance_default [Finite 1] [Finite 0] = Inr (Finite 1)"
proof -
  note fail = search_metric_default [of demo_load missing_cli probe_search "\<lambda>c. NaN",
      THEN conjunct1, THEN spec, of LoadFailure, THEN mp, OF demo_load_missing_cli]
  note run = search_metric_default [of inf_load demo_cli probe_search "\<lambda>c. NaN",
      THEN conjunct2, THEN conjunct1, THEN spec, of inf_mat, THEN mp, OF inf_load_demo_cli]
  from run have tie:
    "fst (mlpackMain inf_load probe_search (\<lambda>c. NaN) demo_cli) =
       probe_search [[PInf], [PInf]] euclidean_distance_default 1 \<and>
     SearchCall [[PInf], [PInf]] euclidean_distance_default 1
       \<in> set (snd (mlpackMain inf_load probe_search (\<lambda>c. NaN) demo_cli))"
    by (simp add: stage_inf_mat) (simp add: demo_cli_def)
  have len: "length [Finite 1] = length [Finite 0]" by simp
  note val = search_metric_default [of inf_load demo_cli probe_search "\<lambda>c. NaN",
      THEN conjunct2, THEN conjunct2, THEN conjunct2, THEN conjunct2, THEN conjunct2,
      THEN conjunct1, THEN spec, THEN spec, of "[Finite 1]" "[Finite 0]", THEN mp, OF len]
  from val have "euclidean_distance_call euclidean_distance_default [Finite 1] [Finite 0] =
      Inr (Finite 1)"
    by (simp add: len_unit)
  with fail tie len demo_load_missing_cli inf_load_demo_cli show ?thesis
    by (simp only: simp_thms)
qed

text \<open>
  C9 as stated fails in its last part: for a dataset whose two samples are both
  \<open>(+infinity)\<close> the plain Euclidean length of the pair is NaN, but the metric that
  mlpackMain hands to the search returns positive infinity, and that is the distance a
  search that evaluates the pair reports.
\<close>

theorem search_metric_counterexample:
  "fst (mlpackMain inf_load probe_search (\<lambda>c. NaN) demo_cli) =
     Inr [\<lparr>index1 = 0, index2 = 1, distance = PInf\<rparr>] \<and>
   SearchCall [[PInf], [PInf]] euclidean_distance_default 1
     \<in> set (snd (mlpackMain inf_load probe_search (\<lambda>c. NaN) demo_cli)) \<and>
   euclidean_distance_call euclidean_distance_default [PInf] [PInf] = Inr PInf \<and>
   fsqrt (length_squared (map2 fsub [PInf] [PInf])) = NaN"
proof -
  have call: "euclidean_distance_call euclidean_distance_default [PInf] [PInf] = Inr PInf"
    by (simp add: call_equal_length euclidean_distance_default_def length_squared_def fsub_def)
  have "mlpackMain inf_load probe_search (\<lambda>c. NaN) demo_cli =
     (Inr [\<lparr>index1 = 0, index2 = 1, distance = PInf\<rparr>],
      [LogInfo ''data.csv'' 1 2, TimerStart ''Nearest_Neighbors'',
       SearchCall [[PInf], [PInf]] euclidean_distance_default 1,
       TimerStop ''Nearest_Neighbors''])"
    by (simp add: mlpackMain_def stage_inf_mat inf_load_demo_cli call)
       (simp add: demo_cli_def inf_mat_def)
  with call len_inf_inf show ?thesis by simp
qed

subsection \<open>C10: a negative k\<close>

text \<open>
  C10. When the parameter \<open>k\<close> is a negative integer \<open>n\<close> and the load succeeds, mlpackMain
  does not reject it: the search is called, its outcome is the outcome of the run, and
  the count it receives is \<open>n mod 2 ^ 64\<close>, that is \<open>2 ^ 64 + n\<close>, which is at least
  \<open>2 ^ 63\<close>.
\<close>

theorem negative_k_wraps:
  assumes "Load (reference_file cli) = Inr A" and "sint (k_param cli) < 0"
  shows "\<exists>s kk. stage uninit A = Inr s \<and>
           SearchCall (samples_train s) euclidean_distance_default kk
             \<in> set (snd (mlpackMain Load search uninit cli)) \<and>
           fst (mlpackMain Load search uninit cli) =
             search (samples_train s) euclidean_distance_default kk \<and>
           uint kk = sint (k_param cli) mod 2 ^ 64 \<and>
           uint kk = 2 ^ 64 + sint (k_param cli) \<and>
           2 ^ 63 \<le> uint kk"
proof -
  from stage_result obtain s where st: "stage uninit A = Inr s" by blast
  let ?kk = "scast (k_param cli) :: 64 word"
  have run: "SearchCall (samples_train s) euclidean_distance_default ?kk
               \<in> set (snd (mlpackMain Load search uninit cli)) \<and>
             fst (mlpackMain Load search uninit cli) =
               search (samples_train s) euclidean_distance_default ?kk"
    by (simp add: mlpackMain_loaded
          [where Load = Load and cli = cli and search = search, OF assms(1) st]
        split: sum.splits)
  have wrap: "uint ?kk = 2 ^ 64 + sint (k_param cli)"
    using assms(2) by (rule uint_scast_negative)
  moreover have "- (2 ^ 31) \<le> sint (k_param cli)"
    using sint_ge [of "k_param cli"] by simp
  ultimately have big: "2 ^ 63 \<le> uint ?kk" by simp
  from st run wrap big uint_scast_mod [of "k_param cli"] show ?thesis by blast
qed

text \<open>The theorem at \<open>k = -1\<close>: the search receives \<open>2 ^ 64 - 1\<close>.\<close>

theorem negative_k_wraps_witness:
  "demo_load (reference_file negative_cli) = Inr unit_mat \<and>
   sint (k_param negative_cli) < 0 \<and>
   (\<exists>s kk. stage (\<lambda>c. NaN) unit_mat = Inr s \<and>
      SearchCall (samples_train s) euclidean_distance_default kk
        \<in> set (snd (mlpackMain demo_load (\<lambda>S ed kk. Inr []) (\<lambda>c. NaN) negative_cli)) \<and>
      uint kk = 18446744073709551615)"
proof -
  have neg: "sint (k_param negative_cli) < 0"
    by (simp add: negative_cli_def)
  have val: "sint (k_param negative_cli) = - 1"
    by (simp add: negative_cli_def)
  from negative_k_wraps [of demo_load negative_cli unit_mat, OF demo_load_negative_cli neg,
      of "\<lambda>c. NaN" "\<lambda>S ed kk. Inr []"]
  show ?thesis using neg demo_load_negative_cli unfolding val by auto
qed

end
